theory Spec2Isabelle
  imports Main "HOL-Library.Word"
begin

unbundle bit_operations_syntax

section \<open>Python values shared by the modules\<close>

type_synonym byte = "8 word"

text \<open>The exceptions the modelled code can raise. \<open>OSError\<close> stands for any exception
  that is an \<open>Exception\<close> but not an \<open>AttributeError\<close>.\<close>

datatype py_error = ValueError | IndexError | AttributeError | OSError

text \<open>\<open>bytes([...])\<close>: every element must be in \<open>range(256)\<close>, else \<open>ValueError\<close>.\<close>

definition py_bytes :: "int list \<Rightarrow> py_error + byte list" where
  "py_bytes xs =
     (if list_all (\<lambda>x. 0 \<le> x \<and> x < 256) xs then Inr (map word_of_int xs) else Inl ValueError)"

text \<open>\<open>range(n)\<close> for an integer \<open>n\<close>: empty when \<open>n \<le> 0\<close>.\<close>

definition py_range :: "int \<Rightarrow> int list" where
  "py_range n = map int [0..<nat n]"

text \<open>\<open>xs[i:j]\<close>: negative bounds count from the end, and both are clamped to the length.\<close>

definition py_slice :: "'a list \<Rightarrow> int \<Rightarrow> int \<Rightarrow> 'a list" where
  "py_slice xs i j =
     (let n = int (length xs);
          a = (if i < 0 then max 0 (i + n) else min i n);
          b = (if j < 0 then max 0 (j + n) else min j n)
      in take (nat (b - a)) (drop (nat a) xs))"

section \<open>Firmware/display.py: the SSD1306 driver\<close>

text \<open>
  The driver object: its geometry, the bus address, the framebuffer, and the I2C bus it
  owns. The bus is modelled by the log of its \<open>writeto\<close> calls, each an address and the
  bytes written, oldest first. A bus that fails to acknowledge is outside the model.
\<close>

record ssd1306 =
  width :: int
  height :: int
  addr :: int
  pages :: int
  buf :: "byte list"
  i2c :: "(int \<times> byte list) list"

definition CONTRAST :: int where "CONTRAST = 0x81"
definition ENTIRE_ON :: int where "ENTIRE_ON = 0xA4"
definition NORMAL :: int where "NORMAL = 0xA6"
definition INVERT :: int where "INVERT = 0xA7"
definition DISPLAY_OFF :: int where "DISPLAY_OFF = 0xAE"
definition DISPLAY_ON :: int where "DISPLAY_ON = 0xAF"
definition SETPAGE :: int where "SETPAGE = 0xB0"
definition LOWER_COLUMN_START :: int where "LOWER_COLUMN_START = 0x00"
definition HIGHER_COLUMN_START :: int where "HIGHER_COLUMN_START = 0x10"
definition SET_START_LINE :: int where "SET_START_LINE = 0x40"

definition writeto :: "int \<Rightarrow> byte list \<Rightarrow> ssd1306 \<Rightarrow> ssd1306" where
  "writeto a bs s = s\<lparr>i2c := i2c s @ [(a, bs)]\<rparr>"

text \<open>\<open>write_cmd\<close> takes a single integer or a bytes object (the \<open>isinstance\<close> test).\<close>

datatype cmd_arg = CmdInt int | CmdBytes "byte list"

fun write_cmd :: "cmd_arg \<Rightarrow> ssd1306 \<Rightarrow> py_error + ssd1306" where
  "write_cmd (CmdInt c) s =
     (case py_bytes [c] of
        Inl e \<Rightarrow> Inl e
      | Inr cmd \<Rightarrow> Inr (writeto (addr s) (0x00 # cmd) s))"
| "write_cmd (CmdBytes cmd) s = Inr (writeto (addr s) (0x00 # cmd) s)"

definition write_data :: "byte list \<Rightarrow> ssd1306 \<Rightarrow> ssd1306" where
  "write_data data s = writeto (addr s) (0x40 # data) s"

definition init_commands :: "int list" where
  "init_commands =
     [DISPLAY_OFF,
      0xD5, 0x80,
      0xA8, 0x3F,
      0xD3, 0x00,
      SET_START_LINE,
      0x8D, 0x14,
      0x20, 0x00,
      0xA1,
      0xC8,
      0xDA, 0x12,
      CONTRAST, 0xCF,
      0xD9, 0xF1,
      0xDB, 0x40,
      ENTIRE_ON,
      NORMAL,
      DISPLAY_ON]"

definition init_display :: "ssd1306 \<Rightarrow> py_error + ssd1306" where
  "init_display s =
     (case py_bytes init_commands of
        Inl e \<Rightarrow> Inl e
      | Inr cmd \<Rightarrow> write_cmd (CmdBytes cmd) s)"

text \<open>
  The constructor. \<open>bytearray(n)\<close> raises \<open>ValueError\<close> for a negative \<open>n\<close>. The pin
  numbers and the bus id only select the hardware and are left out.
\<close>

definition SSD1306_init :: "int \<Rightarrow> int \<Rightarrow> int \<Rightarrow> py_error + ssd1306" where
  "SSD1306_init w h a =
     (let pgs = h div 8 in
      if pgs * w < 0 then Inl ValueError
      else init_display
        \<lparr>width = w, height = h, addr = a, pages = pgs,
         buf = replicate (nat (pgs * w)) 0, i2c = []\<rparr>)"

text \<open>The body of the loop of \<open>show\<close>, for one page.\<close>

definition show_page :: "int \<Rightarrow> ssd1306 \<Rightarrow> py_error + ssd1306" where
  "show_page page s =
     (case write_cmd (CmdInt (SETPAGE OR page)) s of
        Inl e \<Rightarrow> Inl e
      | Inr s1 \<Rightarrow>
     (case write_cmd (CmdInt 0x00) s1 of
        Inl e \<Rightarrow> Inl e
      | Inr s2 \<Rightarrow>
     (case write_cmd (CmdInt 0x10) s2 of
        Inl e \<Rightarrow> Inl e
      | Inr s3 \<Rightarrow>
          (let page_start = page * width s3;
               page_end = page_start + width s3
           in Inr (write_data (py_slice (buf s3) page_start page_end) s3)))))"

fun show_loop :: "int list \<Rightarrow> ssd1306 \<Rightarrow> py_error + ssd1306" where
  "show_loop [] s = Inr s"
| "show_loop (page # rest) s =
     (case show_page page s of
        Inl e \<Rightarrow> Inl e
      | Inr s' \<Rightarrow> show_loop rest s')"

definition "show" :: "ssd1306 \<Rightarrow> py_error + ssd1306" where
  "show s = show_loop (py_range (pages s)) s"

definition clear :: "ssd1306 \<Rightarrow> py_error + ssd1306" where
  "clear s = show (s\<lparr>buf := replicate (length (buf s)) 0\<rparr>)"

definition fill :: "int \<Rightarrow> ssd1306 \<Rightarrow> py_error + ssd1306" where
  "fill color s =
     (let fill_byte = (if color \<noteq> 0 then 0xFF else 0x00)
      in show (s\<lparr>buf := replicate (length (buf s)) fill_byte\<rparr>))"

text \<open>
  \<open>self.buf[index] = f(self.buf[index])\<close> on the bytearray: a negative index counts from
  the end, an index outside the buffer raises \<open>IndexError\<close>.
\<close>

definition buf_modify :: "int \<Rightarrow> (byte \<Rightarrow> byte) \<Rightarrow> ssd1306 \<Rightarrow> py_error + ssd1306" where
  "buf_modify i f s =
     (let n = int (length (buf s));
          j = (if i < 0 then n + i else i)
      in if 0 \<le> j \<and> j < n
         then Inr (s\<lparr>buf := (buf s)[nat j := f (buf s ! nat j)]\<rparr>)
         else Inl IndexError)"

text \<open>
  \<open>pixel\<close>. The two updates \<open>|= (1 << bit)\<close> and \<open>&= ~(1 << bit)\<close> keep a byte
  within \<open>0..255\<close>, so they are the bitwise operations on 8-bit words.
\<close>

definition pixel :: "int \<Rightarrow> int \<Rightarrow> int \<Rightarrow> ssd1306 \<Rightarrow> py_error + ssd1306" where
  "pixel x y state s =
     (if \<not> (0 \<le> x \<and> x < width s \<and> 0 \<le> y \<and> y < height s) then Inr s
      else
        (let page = y div 8;
             bit = y mod 8;
             index = page * width s + x
         in if state \<noteq> 0
            then buf_modify index (\<lambda>b. b OR push_bit (nat bit) 1) s
            else buf_modify index (\<lambda>b. b AND NOT (push_bit (nat bit) 1)) s))"

text \<open>The frames one page contributes to a flush, in the words of the bus protocol:
  page-select, column-low, column-high as command frames, then the page's bytes as one
  data frame.\<close>

definition flush_page_frames :: "int \<Rightarrow> int \<Rightarrow> byte list \<Rightarrow> int \<Rightarrow> (int \<times> byte list) list" where
  "flush_page_frames a w b p =
     [(a, [0x00, word_of_int (0xB0 OR p)]),
      (a, [0x00, 0x00]),
      (a, [0x00, 0x10]),
      (a, 0x40 # py_slice b (p * w) (p * w + w))]"

text \<open>A display of the geometry the firmware configures (128 by 64, at address 0x3C),
  with a blank buffer and an idle bus.\<close>

definition blank_128x64 :: ssd1306 where
  "blank_128x64 =
     \<lparr>width = 128, height = 64, addr = 0x3C, pages = 8, buf = replicate 1024 0, i2c = []\<rparr>"

text \<open>A display of the same geometry after \<open>fill(1)\<close>: every pixel set.\<close>

definition lit_128x64 :: ssd1306 where
  "lit_128x64 =
     \<lparr>width = 128, height = 64, addr = 0x3C, pages = 8, buf = replicate 1024 0xFF, i2c = []\<rparr>"

text \<open>The call sequence \<open>pixel(x, y, 1); pixel(x, y, 0)\<close>.\<close>

definition set_then_clear :: "int \<Rightarrow> int \<Rightarrow> ssd1306 \<Rightarrow> py_error + ssd1306" where
  "set_then_clear x y s =
     (case pixel x y 1 s of
        Inl e \<Rightarrow> Inl e
      | Inr s1 \<Rightarrow> pixel x y 0 s1)"

section \<open>pins.py: the configuration constants the handlers read\<close>

definition DEBOUNCE_TIME :: int where "DEBOUNCE_TIME = 20"
definition ENCODER_DEBOUNCE_TIME :: int where "ENCODER_DEBOUNCE_TIME = 2"
definition OLED_WIDTH :: int where "OLED_WIDTH = 128"
definition OLED_HEIGHT :: int where "OLED_HEIGHT = 64"
definition OLED_ADDR :: int where "OLED_ADDR = 0x3C"

text \<open>The keys of \<open>SWITCH_PINS\<close>, in the order the dictionary lists them.\<close>

datatype switch_name = Switch_1 | Switch_2 | Switch_3 | Switch_4 | Switch_5 | Switch_6

definition SWITCH_NAMES :: "switch_name list" where
  "SWITCH_NAMES = [Switch_1, Switch_2, Switch_3, Switch_4, Switch_5, Switch_6]"

section \<open>Firmware/encoder.py: the EC11 rotary encoder\<close>

text \<open>
  The encoder object. A callback field holds the registered callable or \<open>None\<close>; the
  types \<open>'r\<close> and \<open>'b\<close> are the callables for rotation and for the button. An interrupt
  handler takes what it reads from its environment as arguments (the value of
  \<open>time.ticks_ms()\<close> and the pin levels, Python integers) and returns the updated object
  together with the callback invocations it made, in order: for rotation the callable and
  its one argument, for the button the callable alone, since it is called with no
  argument.
\<close>

record ('r, 'b) ec11 =
  callback_rotate :: "'r option"
  callback_button :: "'b option"
  last_clk :: int
  last_dt :: int
  last_sw :: int
  last_interrupt_time :: int
  button_press_time :: int

definition EC11Encoder_init ::
  "'r option \<Rightarrow> 'b option \<Rightarrow> int \<Rightarrow> int \<Rightarrow> int \<Rightarrow> ('r, 'b) ec11" where
  "EC11Encoder_init cb_rotate cb_button clk_val dt_val sw_val =
     \<lparr>callback_rotate = cb_rotate, callback_button = cb_button,
      last_clk = clk_val, last_dt = dt_val, last_sw = sw_val,
      last_interrupt_time = 0, button_press_time = 0\<rparr>"

definition handle_rotation ::
  "int \<Rightarrow> int \<Rightarrow> int \<Rightarrow> ('r, 'b) ec11 \<Rightarrow> ('r, 'b) ec11 \<times> ('r \<times> int) list" where
  "handle_rotation current_time clk_val dt_val e =
     (if current_time - last_interrupt_time e < ENCODER_DEBOUNCE_TIME then (e, [])
      else
        (let calls =
           (if clk_val \<noteq> last_clk e then
              (if clk_val = 0 then
                 (if dt_val = 1 then
                    (case callback_rotate e of Some cb \<Rightarrow> [(cb, 1)] | None \<Rightarrow> [])
                  else
                    (case callback_rotate e of Some cb \<Rightarrow> [(cb, - 1)] | None \<Rightarrow> []))
               else [])
            else [])
         in (e\<lparr>last_interrupt_time := current_time, last_clk := clk_val, last_dt := dt_val\<rparr>,
             calls)))"

definition handle_button ::
  "int \<Rightarrow> int \<Rightarrow> ('r, 'b) ec11 \<Rightarrow> ('r, 'b) ec11 \<times> 'b list" where
  "handle_button current_time sw_val e =
     (if current_time - button_press_time e < 50 then (e, [])
      else
        (e\<lparr>button_press_time := current_time\<rparr>,
         (if sw_val = 0 then
            (case callback_button e of Some cb \<Rightarrow> [cb] | None \<Rightarrow> [])
          else [])))"

text \<open>
  The debounce contract in the spec's words: the edge is accepted iff
  \<open>now_tick - last_accepted_tick \<ge> threshold\<close>, by unsigned 32-bit subtraction.
\<close>

definition spec_filter :: "32 word \<Rightarrow> 32 word \<Rightarrow> 32 word \<Rightarrow> bool" where
  "spec_filter now_tick last_accepted_tick threshold =
     (threshold \<le> now_tick - last_accepted_tick)"

section \<open>main.py: the switch handler\<close>

text \<open>
  The three dictionaries of a handler are keyed by the six switch names; \<open>__init__\<close>
  fills \<open>last_press_time\<close> and \<open>states\<close> for every name, and \<open>press_callbacks\<close> holds
  a callable of type \<open>'c\<close> for the registered names only. The press handler returns
  the callback invocations it made: the callable and the name passed to it.
\<close>

record 'c switch_handler =
  last_press_time :: "switch_name \<Rightarrow> int"
  press_callbacks :: "switch_name \<rightharpoonup> 'c"
  states :: "switch_name \<Rightarrow> bool"

definition SwitchHandler_init :: "'c switch_handler" where
  "SwitchHandler_init =
     \<lparr>last_press_time = (\<lambda>name. 0), press_callbacks = Map.empty, states = (\<lambda>name. False)\<rparr>"

definition handle_switch_press ::
  "int \<Rightarrow> switch_name \<Rightarrow> 'c switch_handler \<Rightarrow> 'c switch_handler \<times> ('c \<times> switch_name) list" where
  "handle_switch_press current_time name h =
     (if current_time - last_press_time h name < DEBOUNCE_TIME then (h, [])
      else
        (h\<lparr>last_press_time := (last_press_time h)(name := current_time),
           states := (states h)(name := True)\<rparr>,
         (case press_callbacks h name of Some cb \<Rightarrow> [(cb, name)] | None \<Rightarrow> [])))"

definition register_callback :: "switch_name \<Rightarrow> 'c \<Rightarrow> 'c switch_handler \<Rightarrow> 'c switch_handler" where
  "register_callback name cb h = h\<lparr>press_callbacks := (press_callbacks h)(name \<mapsto> cb)\<rparr>"

definition get_active_switches :: "'c switch_handler \<Rightarrow> switch_name list" where
  "get_active_switches h = filter (states h) SWITCH_NAMES"

definition reset_states :: "'c switch_handler \<Rightarrow> 'c switch_handler" where
  "reset_states h = h\<lparr>states := fold (\<lambda>name st. st(name := False)) SWITCH_NAMES (states h)\<rparr>"

section \<open>hid_control.py: the media control dispatcher\<close>

text \<open>
  The USB transport is an external device. Each of its two write primitives is absent
  (looking the method up raises \<open>AttributeError\<close>), works, or raises another exception
  when called. The effects of the dispatcher are a trace: every call of a primitive that
  exists, with the report passed and whether it returned, and every \<open>time.sleep\<close>, in
  milliseconds. Console output is not modelled.
\<close>

datatype prim = Absent | Works | Raises

record hid_device =
  usage_page :: int
  send_prim :: prim
  write_prim :: prim

datatype hid_method = Send | Write

datatype hid_event = HidCall hid_method "byte list" bool | Sleep_ms nat

record media_control =
  enabled :: bool
  keyboard :: "hid_device option"

definition VOLUME_UP :: int where "VOLUME_UP = 0xE9"
definition VOLUME_DOWN :: int where "VOLUME_DOWN = 0xEA"
definition VOLUME_MUTE :: int where "VOLUME_MUTE = 0xE2"
definition PLAY_PAUSE :: int where "PLAY_PAUSE = 0xCD"
definition NEXT_TRACK :: int where "NEXT_TRACK = 0xB5"
definition PREV_TRACK :: int where "PREV_TRACK = 0xB6"

text \<open>
  \<open>MediaControl.__init__\<close>, from whether \<open>import usb_hid\<close> succeeded and the list
  \<open>usb_hid.devices\<close>. With no module, \<open>keyboard\<close> is never assigned.
\<close>

definition MediaControl_init :: "bool \<Rightarrow> hid_device list \<Rightarrow> media_control" where
  "MediaControl_init hid_available hid_devices =
     (if \<not> hid_available then \<lparr>enabled = False, keyboard = None\<rparr>
      else if hid_devices \<noteq> [] then
        (let kb = find (\<lambda>device. usage_page device = 0x0C) hid_devices;
             kb' = (if kb = None \<and> length hid_devices > 0 then Some (hid_devices ! 0) else kb)
         in \<lparr>enabled = True, keyboard = kb'\<rparr>)
      else \<lparr>enabled = False, keyboard = None\<rparr>)"

text \<open>One call \<open>keyboard.send(report)\<close> or \<open>keyboard.write(report)\<close>: the exception it
  raises, if any, and the trace.\<close>

definition hid_call ::
  "hid_method \<Rightarrow> hid_device \<Rightarrow> byte list \<Rightarrow> hid_event list \<Rightarrow> py_error option \<times> hid_event list" where
  "hid_call m kb report tr =
     (case (case m of Send \<Rightarrow> send_prim kb | Write \<Rightarrow> write_prim kb) of
        Absent \<Rightarrow> (Some AttributeError, tr)
      | Raises \<Rightarrow> (Some OSError, tr @ [HidCall m report False])
      | Works \<Rightarrow> (None, tr @ [HidCall m report True]))"

text \<open>The three statements both \<open>try\<close> blocks share: the press report, the 50 ms
  sleep, the all-zero release report.\<close>

definition press_release ::
  "hid_method \<Rightarrow> hid_device \<Rightarrow> byte list \<Rightarrow> hid_event list \<Rightarrow> py_error option \<times> hid_event list" where
  "press_release m kb report tr =
     (case hid_call m kb report tr of
        (Some e, tr1) \<Rightarrow> (Some e, tr1)
      | (None, tr1) \<Rightarrow> hid_call m kb [0, 0, 0] (tr1 @ [Sleep_ms 50]))"

text \<open>
  \<open>_send_media_command\<close>: the exception that leaves it, if any, and the trace. Both
  \<open>except\<close> clauses only print, so every exception raised inside the \<open>try\<close> ends there.
\<close>

definition send_media_command ::
  "int \<Rightarrow> media_control \<Rightarrow> hid_event list \<Rightarrow> py_error option \<times> hid_event list" where
  "send_media_command code mc tr =
     (if \<not> enabled mc then (None, tr)
      else
        (case keyboard mc of
           None \<Rightarrow> (None, tr)
         | Some kb \<Rightarrow>
             (case py_bytes [code AND 0xFF, drop_bit 8 code AND 0xFF, 0] of
                Inl e \<Rightarrow> (None, tr)
              | Inr report \<Rightarrow>
                  (case press_release Send kb report tr of
                     (Some AttributeError, tr1) \<Rightarrow> (None, snd (press_release Write kb report tr1))
                   | (Some e, tr1) \<Rightarrow> (None, tr1)
                   | (None, tr1) \<Rightarrow> (None, tr1)))))"

text \<open>The six public operations: \<open>False\<close> when disabled, \<open>False\<close> when
  \<open>_send_media_command\<close> raises, \<open>True\<close> otherwise.\<close>

definition volume_up :: "media_control \<Rightarrow> hid_event list \<Rightarrow> bool \<times> hid_event list" where
  "volume_up mc tr =
     (if \<not> enabled mc then (False, tr)
      else
        (case send_media_command VOLUME_UP mc tr of
           (None, tr') \<Rightarrow> (True, tr')
         | (Some e, tr') \<Rightarrow> (False, tr')))"

definition volume_down :: "media_control \<Rightarrow> hid_event list \<Rightarrow> bool \<times> hid_event list" where
  "volume_down mc tr =
     (if \<not> enabled mc then (False, tr)
      else
        (case send_media_command VOLUME_DOWN mc tr of
           (None, tr') \<Rightarrow> (True, tr')
         | (Some e, tr') \<Rightarrow> (False, tr')))"

definition volume_mute :: "media_control \<Rightarrow> hid_event list \<Rightarrow> bool \<times> hid_event list" where
  "volume_mute mc tr =
     (if \<not> enabled mc then (False, tr)
      else
        (case send_media_command VOLUME_MUTE mc tr of
           (None, tr') \<Rightarrow> (True, tr')
         | (Some e, tr') \<Rightarrow> (False, tr')))"

definition play_pause :: "media_control \<Rightarrow> hid_event list \<Rightarrow> bool \<times> hid_event list" where
  "play_pause mc tr =
     (if \<not> enabled mc then (False, tr)
      else
        (case send_media_command PLAY_PAUSE mc tr of
           (None, tr') \<Rightarrow> (True, tr')
         | (Some e, tr') \<Rightarrow> (False, tr')))"

definition next_track :: "media_control \<Rightarrow> hid_event list \<Rightarrow> bool \<times> hid_event list" where
  "next_track mc tr =
     (if \<not> enabled mc then (False, tr)
      else
        (case send_media_command NEXT_TRACK mc tr of
           (None, tr') \<Rightarrow> (True, tr')
         | (Some e, tr') \<Rightarrow> (False, tr')))"

definition prev_track :: "media_control \<Rightarrow> hid_event list \<Rightarrow> bool \<times> hid_event list" where
  "prev_track mc tr =
     (if \<not> enabled mc then (False, tr)
      else
        (case send_media_command PREV_TRACK mc tr of
           (None, tr') \<Rightarrow> (True, tr')
         | (Some e, tr') \<Rightarrow> (False, tr')))"

text \<open>A transport whose primary primitive is absent and whose fallback raises, behind an
  enabled dispatcher.\<close>

definition failing_transport :: media_control where
  "failing_transport =
     \<lparr>enabled = True,
      keyboard = Some \<lparr>usage_page = 0x0C, send_prim = Absent, write_prim = Raises\<rparr>\<rparr>"

section \<open>Firmware/display.py: the display manager, at its interface\<close>

text \<open>
  The class \<open>Display\<close> wraps the driver and draws whole screens. Here it is taken at
  its interface: which screen was requested, with which arguments, in order. A request on
  a display that failed to initialise is dropped, as every method's guard does.
\<close>

datatype screen = Welcome | Status int "switch_name list" | Key_press switch_name | Blank

record display =
  initialized :: bool
  screens :: "screen list"

text \<open>\<open>Display.__init__\<close>, from the outcome of the driver's constructor.\<close>

definition Display_init :: "py_error + ssd1306 \<Rightarrow> display" where
  "Display_init oled =
     (case oled of
        Inr s \<Rightarrow> \<lparr>initialized = True, screens = []\<rparr>
      | Inl e \<Rightarrow> \<lparr>initialized = False, screens = []\<rparr>)"

definition show_welcome :: "display \<Rightarrow> display" where
  "show_welcome d = (if \<not> initialized d then d else d\<lparr>screens := screens d @ [Welcome]\<rparr>)"

definition show_status :: "int \<Rightarrow> switch_name list \<Rightarrow> display \<Rightarrow> display" where
  "show_status value active_keys d =
     (if \<not> initialized d then d else d\<lparr>screens := screens d @ [Status value active_keys]\<rparr>)"

definition show_key_press :: "switch_name \<Rightarrow> display \<Rightarrow> display" where
  "show_key_press key_name d =
     (if \<not> initialized d then d else d\<lparr>screens := screens d @ [Key_press key_name]\<rparr>)"

definition Display_clear :: "display \<Rightarrow> display" where
  "Display_clear d = (if initialized d then d\<lparr>screens := screens d @ [Blank]\<rparr> else d)"

section \<open>main.py: the globals, the callbacks and the poll\<close>

text \<open>The three callables \<open>main\<close> registers, one type for each signature.\<close>

datatype press_cb = On_switch_press
datatype rotate_cb = On_encoder_rotate
datatype button_cb = On_encoder_button

text \<open>
  Where the main loop stands inside \<open>update_display\<close>. Interrupt handlers run between
  the statements of the main loop, so each statement that reads or writes what a handler
  writes is a step of its own: \<open>Idle\<close> is outside the body (before the tick test),
  \<open>At_test\<close> before the test of the display, \<open>At_read names keys\<close> inside the
  comprehension of \<open>get_active_switches\<close> with \<open>names\<close> still to visit and
  \<open>keys\<close> collected, \<open>At_render keys\<close> before \<open>show_status\<close> with the local
  \<open>active_keys\<close>, \<open>At_reset names\<close> inside the loop of \<open>reset_states\<close> with
  \<open>names\<close> still to reset, and \<open>Failed\<close> after an exception has left
  \<open>update_display\<close> and ended the loop.
\<close>

datatype poll_pc =
    Idle
  | At_test
  | At_read "switch_name list" "switch_name list"
  | At_render "switch_name list"
  | At_reset "switch_name list"
  | Failed

text \<open>The module's globals once \<open>main\<close> has initialised them, the trace of the USB
  transport, and the place of the main loop.\<close>

record system =
  switch_handler :: "press_cb switch_handler"
  encoder :: "(rotate_cb, button_cb) ec11"
  display :: "display option"
  media_control :: "media_control option"
  hid_trace :: "hid_event list"
  encoder_value :: int
  last_display_update :: int
  poll_pc :: poll_pc

definition init_switches :: "'c option \<Rightarrow> 'c switch_handler" where
  "init_switches switch_callback =
     (case switch_callback of
        None \<Rightarrow> SwitchHandler_init
      | Some cb \<Rightarrow> fold (\<lambda>name. register_callback name cb) SWITCH_NAMES SwitchHandler_init)"

definition on_switch_press :: "switch_name \<Rightarrow> system \<Rightarrow> system" where
  "on_switch_press name sys =
     (case display sys of
        None \<Rightarrow> sys
      | Some d \<Rightarrow>
          (if initialized d then sys\<lparr>display := Some (show_key_press name d)\<rparr> else sys))"

definition on_encoder_rotate :: "int \<Rightarrow> system \<Rightarrow> system" where
  "on_encoder_rotate direction sys =
     (let sys1 = sys\<lparr>encoder_value := encoder_value sys + direction\<rparr>
      in case media_control sys1 of
           None \<Rightarrow> sys1
         | Some mc \<Rightarrow>
             (if enabled mc then
                (if direction > 0
                 then sys1\<lparr>hid_trace := snd (volume_up mc (hid_trace sys1))\<rparr>
                 else sys1\<lparr>hid_trace := snd (volume_down mc (hid_trace sys1))\<rparr>)
              else sys1))"

definition on_encoder_button :: "system \<Rightarrow> system" where
  "on_encoder_button sys = sys\<lparr>encoder_value := 0\<rparr>"

definition update_display :: "int \<Rightarrow> system \<Rightarrow> system" where
  "update_display current_time sys =
     (if current_time - last_display_update sys > 500 then
        (let sys1 = sys\<lparr>last_display_update := current_time\<rparr>
         in case display sys1 of
              None \<Rightarrow> sys1
            | Some d \<Rightarrow>
                (if initialized d then
                   (let active_keys = get_active_switches (switch_handler sys1)
                    in sys1\<lparr>display := Some (show_status (encoder_value sys1) active_keys d),
                            switch_handler := reset_states (switch_handler sys1)\<rparr>)
                 else sys1))
      else sys)"

text \<open>
  One step of the main loop inside \<open>update_display\<close>, the same statements in the same
  order as above. The tick is the value of \<open>time.ticks_ms()\<close>, read in the first step
  only. In \<open>At_render\<close> the globals \<open>display\<close> and \<open>encoder_value\<close> are read as
  they are then; calling \<open>show_status\<close> on \<open>None\<close> raises \<open>AttributeError\<close>.
\<close>

definition poll_step :: "int \<Rightarrow> system \<Rightarrow> system" where
  "poll_step current_time sys =
     (case poll_pc sys of
        Idle \<Rightarrow>
          (if current_time - last_display_update sys > 500
           then sys\<lparr>last_display_update := current_time, poll_pc := At_test\<rparr>
           else sys)
      | At_test \<Rightarrow>
          (case display sys of
             None \<Rightarrow> sys\<lparr>poll_pc := Idle\<rparr>
           | Some d \<Rightarrow>
               (if initialized d then sys\<lparr>poll_pc := At_read SWITCH_NAMES []\<rparr>
                else sys\<lparr>poll_pc := Idle\<rparr>))
      | At_read [] keys \<Rightarrow> sys\<lparr>poll_pc := At_render keys\<rparr>
      | At_read (name # names) keys \<Rightarrow>
          sys\<lparr>poll_pc :=
                At_read names (if states (switch_handler sys) name then keys @ [name] else keys)\<rparr>
      | At_render active_keys \<Rightarrow>
          (case display sys of
             None \<Rightarrow> sys\<lparr>poll_pc := Failed\<rparr>
           | Some d \<Rightarrow>
               sys\<lparr>display := Some (show_status (encoder_value sys) active_keys d),
                   poll_pc := At_reset SWITCH_NAMES\<rparr>)
      | At_reset [] \<Rightarrow> sys\<lparr>poll_pc := Idle\<rparr>
      | At_reset (name # names) \<Rightarrow>
          sys\<lparr>switch_handler :=
                (switch_handler sys)\<lparr>states := (states (switch_handler sys))(name := False)\<rparr>,
              poll_pc := At_reset names\<rparr>
      | Failed \<Rightarrow> sys)"

text \<open>
  The initialisation \<open>main\<close> performs, from what it finds: whether \<open>usb_hid\<close> is
  there with which devices, the outcome of the display driver's constructor, and the
  levels of the three encoder pins.
\<close>

definition main_init ::
  "bool \<Rightarrow> hid_device list \<Rightarrow> py_error + ssd1306 \<Rightarrow> int \<Rightarrow> int \<Rightarrow> int \<Rightarrow> system" where
  "main_init hid_available hid_devices oled clk_val dt_val sw_val =
     \<lparr>switch_handler = init_switches (Some On_switch_press),
      encoder = EC11Encoder_init (Some On_encoder_rotate) (Some On_encoder_button)
                  clk_val dt_val sw_val,
      display = Some (show_welcome (Display_init oled)),
      media_control = Some (MediaControl_init hid_available hid_devices),
      hid_trace = [],
      encoder_value = 0,
      last_display_update = 0,
      poll_pc = Idle\<rparr>"

text \<open>
  What runs after initialisation: the interrupt handlers of the six switches, of the
  encoder's clock pin and of its button, each with the tick and the pin levels it reads,
  and the main loop, one step of \<open>update_display\<close> at a time. A handler runs to its end
  once started, and may start between any two steps of the main loop. A handler's
  callbacks are run on the globals after the handler's own update; none of them touches
  the object that invoked it.
\<close>

datatype event =
    Switch_irq switch_name int
  | Rotation_irq int int int
  | Button_irq int int
  | Poll int

fun run_press :: "press_cb \<times> switch_name \<Rightarrow> system \<Rightarrow> system" where
  "run_press (On_switch_press, name) sys = on_switch_press name sys"

fun run_rotate :: "rotate_cb \<times> int \<Rightarrow> system \<Rightarrow> system" where
  "run_rotate (On_encoder_rotate, direction) sys = on_encoder_rotate direction sys"

fun run_button :: "button_cb \<Rightarrow> system \<Rightarrow> system" where
  "run_button On_encoder_button sys = on_encoder_button sys"

fun step :: "event \<Rightarrow> system \<Rightarrow> system" where
  "step (Switch_irq name current_time) sys =
     (case handle_switch_press current_time name (switch_handler sys) of
        (h, calls) \<Rightarrow> fold run_press calls (sys\<lparr>switch_handler := h\<rparr>))"
| "step (Rotation_irq current_time clk_val dt_val) sys =
     (case handle_rotation current_time clk_val dt_val (encoder sys) of
        (e, calls) \<Rightarrow> fold run_rotate calls (sys\<lparr>encoder := e\<rparr>))"
| "step (Button_irq current_time sw_val) sys =
     (case handle_button current_time sw_val (encoder sys) of
        (e, calls) \<Rightarrow> fold run_button calls (sys\<lparr>encoder := e\<rparr>))"
| "step (Poll current_time) sys = poll_step current_time sys"

text \<open>A run of the firmware: the events in the order they happen.\<close>

definition run :: "event list \<Rightarrow> system \<Rightarrow> system" where
  "run evs sys = fold step evs sys"

text \<open>The firmware on its target: no \<open>usb_hid\<close> module, the display present, the
  encoder pins pulled high.\<close>

definition booted :: system where
  "booted = main_init False [] (SSD1306_init OLED_WIDTH OLED_HEIGHT OLED_ADDR) 1 1 1"

text \<open>
  A press of switch 1 at tick 100, then one update of the display from tick 600: the ten
  steps of the main loop up to and including \<open>show_status\<close>, and the seven steps of
  \<open>reset_states\<close> and the return; and the same with a press of switch 2 at tick 650
  between the two.
\<close>

definition update_until_rendered :: "event list" where
  "update_until_rendered = Switch_irq Switch_1 100 # replicate 10 (Poll 600)"

definition press_inside_update :: "event list" where
  "press_inside_update =
     update_until_rendered @ [Switch_irq Switch_2 650] @ replicate 7 (Poll 600)"

text \<open>An encoder and a switch handler whose last accepted edges were at tick
  \<open>2^30 - 5\<close>, 5 ms before a 30-bit tick counter wraps to 0; and a transport with a
  consumer-control device whose \<open>send\<close> works.\<close>

definition near_wrap :: "(unit, unit) ec11" where
  "near_wrap =
     \<lparr>callback_rotate = Some (), callback_button = Some (),
      last_clk = 1, last_dt = 1, last_sw = 1,
      last_interrupt_time = 1073741819, button_press_time = 1073741819\<rparr>"

definition near_wrap_switches :: "unit switch_handler" where
  "near_wrap_switches =
     \<lparr>last_press_time = (\<lambda>name. 1073741819),
      press_callbacks = (\<lambda>name. Some ()),
      states = (\<lambda>name. False)\<rparr>"

definition consumer_device :: hid_device where
  "consumer_device = \<lparr>usage_page = 0x0C, send_prim = Works, write_prim = Absent\<rparr>"

section \<open>Properties of the display driver\<close>

lemma py_bytes_single: "0 \<le> c \<Longrightarrow> c < 256 \<Longrightarrow> py_bytes [c] = Inr [word_of_int c]"
  by (simp add: py_bytes_def)

lemma setpage_or_range:
  assumes "0 \<le> p" "p < 256"
  shows "0 \<le> SETPAGE OR p \<and> SETPAGE OR p < 256"
proof -
  have "(176::int) OR p < 256"
    using assms OR_upper [of 176 8 p] by simp
  then show ?thesis
    using assms by (simp add: SETPAGE_def)
qed

lemma show_page_frames:
  assumes "0 \<le> p" "p < 256"
  shows "show_page p s =
           Inr (s\<lparr>i2c := i2c s @ flush_page_frames (addr s) (width s) (buf s) p\<rparr>)"
proof -
  have r: "py_bytes [SETPAGE OR p] = Inr [word_of_int (SETPAGE OR p)]"
    using setpage_or_range [OF assms] by (simp add: py_bytes_single)
  have c: "py_bytes [0] = Inr [0]" "py_bytes [16] = Inr [16]"
    by (simp_all add: py_bytes_def)
  show ?thesis
    by (simp add: show_page_def r c writeto_def write_data_def flush_page_frames_def
        Let_def)
      (simp add: SETPAGE_def)
qed

lemma show_loop_frames:
  assumes "\<forall>p \<in> set ps. 0 \<le> p \<and> p < 256"
  shows "show_loop ps s =
           Inr (s\<lparr>i2c := i2c s @ concat (map (flush_page_frames (addr s) (width s) (buf s)) ps)\<rparr>)"
  using assms
proof (induction ps arbitrary: s)
  case Nil
  show ?case by simp
next
  case (Cons p ps)
  have p: "0 \<le> p" "p < 256" using Cons.prems by simp_all
  have rest: "\<forall>q \<in> set ps. 0 \<le> q \<and> q < 256" using Cons.prems by simp
  show ?case
    by (simp add: show_page_frames [OF p] Cons.IH [OF rest])
qed

lemma show_frames:
  assumes "pages s \<le> 256"
  shows "show s =
           Inr (s\<lparr>i2c := i2c s @
                  concat (map (flush_page_frames (addr s) (width s) (buf s)) (py_range (pages s)))\<rparr>)"
proof -
  have "\<forall>p \<in> set (py_range (pages s)). 0 \<le> p \<and> p < 256"
    using assms by (auto simp: py_range_def)
  then show ?thesis
    unfolding show_def by (rule show_loop_frames)
qed

lemma length_concat_page_frames:
  "length (concat (map (flush_page_frames a w b) ps)) = 4 * length ps"
  by (induction ps) (simp_all add: flush_page_frames_def)

text \<open>
  C1. On every 128 by 64 display, whatever its buffer holds, \<open>show\<close> succeeds and adds
  to the bus, for the pages 0 to 7 in ascending order, the command frame of page-select
  \<open>0xB0 | p\<close>, the command frame of column-low \<open>0x00\<close>, the command frame of
  column-high \<open>0x10\<close> (each led by the control byte \<open>0x00\<close>), then one data frame: the
  control byte \<open>0x40\<close> and the 128 bytes of page \<open>p\<close>. Nothing else is written.
\<close>

theorem show_flush_128x64:
  assumes "width s = 128" "height s = 64" "pages s = 8" "length (buf s) = 1024"
  shows "show s =
           Inr (s\<lparr>i2c := i2c s @ concat (map (\<lambda>p.
                  [(addr s, [0x00, 0xB0 OR of_nat p]),
                   (addr s, [0x00, 0x00]),
                   (addr s, [0x00, 0x10]),
                   (addr s, 0x40 # take 128 (drop (128 * p) (buf s)))]) [0..<8])\<rparr>)
         \<and> (\<forall>p < 8. length (take 128 (drop (128 * p) (buf s))) = 128)"
proof -
  have r: "py_range 8 = [0, 1, 2, 3, 4, 5, 6, 7]"
    by (simp add: py_range_def upt_rec)
  have u: "[0..<8] = [0, 1, 2, 3, 4, 5, 6, 7]"
    by (simp add: upt_rec)
  have "pages s \<le> 256" using assms by simp
  from show_frames [OF this]
  have "show s =
           Inr (s\<lparr>i2c := i2c s @
                  concat (map (flush_page_frames (addr s) 128 (buf s)) [0, 1, 2, 3, 4, 5, 6, 7])\<rparr>)"
    using assms by (simp add: r)
  moreover have "\<forall>p < 8. length (take 128 (drop (128 * p) (buf s))) = 128"
    using assms by auto
  ultimately show ?thesis
    using assms by (simp add: u flush_page_frames_def py_slice_def)
qed

theorem show_flush_128x64_witness:
  "width blank_128x64 = 128 \<and> height blank_128x64 = 64 \<and> pages blank_128x64 = 8
   \<and> length (buf blank_128x64) = 1024
   \<and> show blank_128x64 =
       Inr (blank_128x64\<lparr>i2c := i2c blank_128x64 @ concat (map (\<lambda>p.
                  [(addr blank_128x64, [0x00, 0xB0 OR of_nat p]),
                   (addr blank_128x64, [0x00, 0x00]),
                   (addr blank_128x64, [0x00, 0x10]),
                   (addr blank_128x64, 0x40 # take 128 (drop (128 * p) (buf blank_128x64)))])
                [0..<8])\<rparr>)
   \<and> length (take 128 (drop (128 * 7) (buf blank_128x64))) = 128"
proof -
  have h: "width blank_128x64 = 128" "height blank_128x64 = 64" "pages blank_128x64 = 8"
    "length (buf blank_128x64) = 1024"
    by (simp_all add: blank_128x64_def)
  from show_flush_128x64 [OF h] show ?thesis
    using h by simp
qed

text \<open>
  C2. \<open>init_display\<close> writes one command frame, the control byte \<open>0x00\<close> followed by
  the 25 bytes 0xAE, 0xD5, 0x80, 0xA8, 0x3F, 0xD3, 0x00, 0x40, 0x8D, 0x14, 0x20, 0x00, 0xA1,
  0xC8, 0xDA, 0x12, 0x81, 0xCF, 0xD9, 0xF1, 0xDB, 0x40, 0xA4, 0xA6, 0xAF in this order; and
  on the display the constructor returns, this frame is all the bus has seen, so it
  precedes every flush.
\<close>

theorem init_display_sequence:
  "init_display s =
     Inr (s\<lparr>i2c := i2c s @
       [(addr s, [0x00, 0xAE, 0xD5, 0x80, 0xA8, 0x3F, 0xD3, 0x00, 0x40, 0x8D, 0x14, 0x20, 0x00,
                  0xA1, 0xC8, 0xDA, 0x12, 0x81, 0xCF, 0xD9, 0xF1, 0xDB, 0x40, 0xA4, 0xA6, 0xAF])]\<rparr>)
   \<and> SSD1306_init 128 64 0x3C =
     Inr \<lparr>width = 128, height = 64, addr = 0x3C, pages = 8, buf = replicate 1024 0,
          i2c = [(0x3C, [0x00, 0xAE, 0xD5, 0x80, 0xA8, 0x3F, 0xD3, 0x00, 0x40, 0x8D, 0x14, 0x20,
                  0x00, 0xA1, 0xC8, 0xDA, 0x12, 0x81, 0xCF, 0xD9, 0xF1, 0xDB, 0x40, 0xA4, 0xA6,
                  0xAF])]\<rparr>"
  by (simp add: init_display_def SSD1306_init_def init_commands_def py_bytes_def writeto_def
      DISPLAY_OFF_def SET_START_LINE_def CONTRAST_def ENTIRE_ON_def NORMAL_def DISPLAY_ON_def)

subsection \<open>Setting then clearing a pixel\<close>

lemma pixel_index_in_buffer:
  assumes "0 \<le> x" "x < width s" "0 \<le> y" "y < height s"
    and "height s mod 8 = 0"
    and "int (length (buf s)) = height s div 8 * width s"
  shows "0 \<le> y div 8 * width s + x \<and> y div 8 * width s + x < int (length (buf s))"
proof -
  have pg: "0 \<le> y div 8" "y div 8 + 1 \<le> height s div 8"
    using assms by presburger+
  have w: "0 < width s" using assms by simp
  have "(y div 8 + 1) * width s \<le> height s div 8 * width s"
    using pg(2) w by (intro mult_right_mono) simp_all
  then have "y div 8 * width s + width s \<le> height s div 8 * width s"
    by (simp add: algebra_simps)
  moreover have "0 \<le> y div 8 * width s"
    using pg(1) w by simp
  ultimately show ?thesis
    using assms by simp
qed

lemma set_clear_bit_byte:
  fixes b :: byte
  shows "(b OR push_bit n 1) AND NOT (push_bit n 1) = b AND NOT (push_bit n 1)"
  by (rule bit_eqI) (auto simp: bit_simps)

lemma clear_bit_byte_same:
  fixes b :: byte
  assumes "n < 8"
  shows "b AND NOT (push_bit n 1) = b \<longleftrightarrow> \<not> bit b n"
proof
  assume "b AND NOT (push_bit n 1) = b"
  then have "bit (b AND NOT (push_bit n 1)) n = bit b n" by simp
  then show "\<not> bit b n" using assms by (simp add: bit_simps)
next
  assume "\<not> bit b n"
  then show "b AND NOT (push_bit n 1) = b"
    by (intro bit_eqI) (auto simp: bit_simps)
qed

text \<open>
  C5, as the claim states it, fails where the pixel was set before the two calls: on the
  all-lit 128 by 64 display, \<open>pixel(0,0,1)\<close> then \<open>pixel(0,0,0)\<close> turns byte 0 from
  \<open>0xFF\<close> into \<open>0xFE\<close>.
\<close>

theorem pixel_roundtrip_counterexample:
  "buf lit_128x64 ! 0 = 0xFF \<and>
   set_then_clear 0 0 lit_128x64 = Inr (lit_128x64\<lparr>buf := (buf lit_128x64)[0 := 0xFE]\<rparr>)"
  by (simp add: set_then_clear_def pixel_def buf_modify_def lit_128x64_def Let_def)

text \<open>
  C5, amended. For every in-range \<open>(x, y)\<close> and every buffer contents, on a display whose
  height is a multiple of 8 and whose buffer has \<open>(height / 8) * width\<close> bytes,
  \<open>pixel(x,y,1)\<close> followed by \<open>pixel(x,y,0)\<close> succeeds and leaves the byte holding the
  pixel equal to its value before the two calls with that pixel's bit cleared, every other
  byte unchanged; so the byte has its original value exactly when the pixel was clear
  before.
\<close>

theorem pixel_set_then_clear:
  assumes "0 \<le> x" "x < width s" "0 \<le> y" "y < height s"
    and "height s mod 8 = 0"
    and "int (length (buf s)) = height s div 8 * width s"
  shows "set_then_clear x y s =
           Inr (s\<lparr>buf := (buf s)[nat (y div 8 * width s + x) :=
                  buf s ! nat (y div 8 * width s + x) AND NOT (push_bit (nat (y mod 8)) 1)]\<rparr>)
         \<and> (buf s ! nat (y div 8 * width s + x) AND NOT (push_bit (nat (y mod 8)) 1)
               = buf s ! nat (y div 8 * width s + x)
             \<longleftrightarrow> \<not> bit (buf s ! nat (y div 8 * width s + x)) (nat (y mod 8)))"
proof -
  let ?i = "y div 8 * width s + x"
  have i: "\<not> ?i < 0" "?i < int (length (buf s))"
    using pixel_index_in_buffer [OF assms] by simp_all
  have n: "nat (y mod 8) < 8" by simp
  have 1: "pixel x y 1 s =
      Inr (s\<lparr>buf := (buf s)[nat ?i := buf s ! nat ?i OR push_bit (nat (y mod 8)) 1]\<rparr>)"
    using assms(1-4) i by (simp add: pixel_def buf_modify_def Let_def)
  have 2: "set_then_clear x y s =
      Inr (s\<lparr>buf := (buf s)[nat ?i :=
          (buf s ! nat ?i OR push_bit (nat (y mod 8)) 1) AND NOT (push_bit (nat (y mod 8)) 1)]\<rparr>)"
    using assms(1-4) i by (simp add: set_then_clear_def 1 pixel_def buf_modify_def Let_def)
  show ?thesis
    unfolding 2 set_clear_bit_byte using clear_bit_byte_same [OF n] by simp
qed

theorem pixel_set_then_clear_witness:
  "(0::int) \<le> 5 \<and> 5 < width blank_128x64 \<and> (0::int) \<le> 10 \<and> 10 < height blank_128x64
   \<and> height blank_128x64 mod 8 = 0
   \<and> int (length (buf blank_128x64)) = height blank_128x64 div 8 * width blank_128x64
   \<and> set_then_clear 5 10 blank_128x64 = Inr blank_128x64
   \<and> \<not> bit (buf blank_128x64 ! 133) (2::nat)"
proof -
  have h: "(0::int) \<le> 5" "5 < width blank_128x64" "(0::int) \<le> 10" "10 < height blank_128x64"
    "height blank_128x64 mod 8 = 0"
    "int (length (buf blank_128x64)) = height blank_128x64 div 8 * width blank_128x64"
    by (simp_all add: blank_128x64_def)
  have e: "replicate 1024 (0::byte) = (replicate 1024 0)[133 := 0]"
    by (simp add: list_eq_iff_nth_eq nth_list_update)
  from pixel_set_then_clear [OF h] show ?thesis
    using h e by (simp add: blank_128x64_def)
qed

text \<open>
  C10. On a display with at least one page (and at most 256, so that the page-select
  command is a byte), \<open>clear()\<close> and \<open>fill(color)\<close> each set every buffer byte (to
  \<open>0x00\<close>, or to \<open>0xFF\<close> for a true colour) and, in the same call, write the full flush
  of the new buffer to the bus: four frames for each page, so the bus sees traffic
  although the caller never called \<open>show\<close>.
\<close>

theorem clear_fill_flush:
  assumes "0 < pages s" "pages s \<le> 256"
  shows "clear s =
           Inr (s\<lparr>buf := replicate (length (buf s)) 0,
                  i2c := i2c s @ concat (map
                    (flush_page_frames (addr s) (width s) (replicate (length (buf s)) 0))
                    (py_range (pages s)))\<rparr>)
       \<and> fill color s =
           Inr (s\<lparr>buf := replicate (length (buf s)) (if color \<noteq> 0 then 0xFF else 0x00),
                  i2c := i2c s @ concat (map
                    (flush_page_frames (addr s) (width s)
                       (replicate (length (buf s)) (if color \<noteq> 0 then 0xFF else 0x00)))
                    (py_range (pages s)))\<rparr>)
       \<and> (\<forall>b. length (concat (map (flush_page_frames (addr s) (width s) b)
                    (py_range (pages s)))) = 4 * nat (pages s))
       \<and> 0 < 4 * nat (pages s)
       \<and> clear s = show (s\<lparr>buf := replicate (length (buf s)) 0\<rparr>)
       \<and> fill color s =
           show (s\<lparr>buf := replicate (length (buf s)) (if color \<noteq> 0 then 0xFF else 0x00)\<rparr>)"
proof -
  have c: "clear s =
           Inr (s\<lparr>buf := replicate (length (buf s)) 0,
                  i2c := i2c s @ concat (map
                    (flush_page_frames (addr s) (width s) (replicate (length (buf s)) 0))
                    (py_range (pages s)))\<rparr>)"
    using assms(2) by (simp add: clear_def show_frames)
  have f: "fill color s =
           Inr (s\<lparr>buf := replicate (length (buf s)) (if color \<noteq> 0 then 0xFF else 0x00),
                  i2c := i2c s @ concat (map
                    (flush_page_frames (addr s) (width s)
                       (replicate (length (buf s)) (if color \<noteq> 0 then 0xFF else 0x00)))
                    (py_range (pages s)))\<rparr>)"
    using assms(2) by (simp add: fill_def show_frames Let_def)
  have l: "\<forall>b. length (concat (map (flush_page_frames (addr s) (width s) b)
                    (py_range (pages s)))) = 4 * nat (pages s)"
    unfolding length_concat_page_frames by (simp add: py_range_def)
  have d: "clear s = show (s\<lparr>buf := replicate (length (buf s)) 0\<rparr>)"
    "fill color s =
       show (s\<lparr>buf := replicate (length (buf s)) (if color \<noteq> 0 then 0xFF else 0x00)\<rparr>)"
    by (simp_all add: clear_def fill_def Let_def)
  show ?thesis
    using c f l d assms(1) by simp
qed

theorem clear_fill_flush_witness:
  "0 < pages blank_128x64 \<and> pages blank_128x64 \<le> 256
   \<and> length (i2c (projr (clear blank_128x64))) = 32
   \<and> length (i2c (projr (fill 1 blank_128x64))) = 32
   \<and> buf (projr (fill 1 blank_128x64)) = replicate 1024 0xFF"
proof -
  have h: "0 < pages blank_128x64" "pages blank_128x64 \<le> 256"
    by (simp_all add: blank_128x64_def)
  from clear_fill_flush [OF h, of 1] show ?thesis
    using h by (simp add: blank_128x64_def)
qed

section \<open>Properties of the interrupt handlers\<close>

lemma len_word_32: "LENGTH(32) = 32"
  by simp

lemma plain_difference_modular:
  assumes "0 \<le> last_tick" "last_tick \<le> now" "now < 2 ^ 32" "0 \<le> thr" "thr < 2 ^ 32"
  shows "spec_filter (word_of_int now) (word_of_int last_tick) (word_of_int thr) = (thr \<le> now - last_tick)"
proof -
  have "(word_of_int now :: 32 word) - word_of_int last_tick = word_of_int (now - last_tick)"
    by simp
  then have "uint ((word_of_int now :: 32 word) - word_of_int last_tick)
      = uint (word_of_int (now - last_tick) :: 32 word)"
    by (simp only:)
  also have "\<dots> = take_bit 32 (now - last_tick)"
    by (simp only: uint_word_of_int_eq len_word_32)
  also have "\<dots> = now - last_tick"
    using assms by (intro take_bit_int_eq_self) simp_all
  finally have d: "uint ((word_of_int now :: 32 word) - word_of_int last_tick) = now - last_tick" .
  have "uint (word_of_int thr :: 32 word) = take_bit 32 thr"
    by (simp only: uint_word_of_int_eq len_word_32)
  also have "\<dots> = thr"
    using assms by (intro take_bit_int_eq_self) simp_all
  finally have t: "uint (word_of_int thr :: 32 word) = thr" .
  show ?thesis
    unfolding spec_filter_def word_le_def d t ..
qed

text \<open>
  What the guard of the three handlers decides, for any ticks: the edge is accepted, and
  the stored tick set to the current one, exactly when the difference of the two Python
  integers reaches the threshold; a rejected edge leaves the handler's state unchanged
  and calls nothing. Where the counter has not wrapped between the two events, this is
  the decision of the unsigned modular subtraction.
\<close>

lemma debounce_guard_decision:
  "last_interrupt_time (fst (handle_rotation now clk dt e)) =
     (if ENCODER_DEBOUNCE_TIME \<le> now - last_interrupt_time e then now else last_interrupt_time e)
   \<and> button_press_time (fst (handle_button now sw e)) =
     (if 50 \<le> now - button_press_time e then now else button_press_time e)
   \<and> last_press_time (fst (handle_switch_press now name h)) name =
     (if DEBOUNCE_TIME \<le> now - last_press_time h name then now else last_press_time h name)
   \<and> (now - last_interrupt_time e < ENCODER_DEBOUNCE_TIME \<longrightarrow>
        handle_rotation now clk dt e = (e, []))
   \<and> (now - button_press_time e < 50 \<longrightarrow> handle_button now sw e = (e, []))
   \<and> (now - last_press_time h name < DEBOUNCE_TIME \<longrightarrow>
        handle_switch_press now name h = (h, []))
   \<and> (0 \<le> last_tick \<and> last_tick \<le> now \<and> now < 2 ^ 32 \<and> 0 \<le> thr \<and> thr < 2 ^ 32 \<longrightarrow>
        spec_filter (word_of_int now) (word_of_int last_tick) (word_of_int thr)
          = (thr \<le> now - last_tick))"
  using plain_difference_modular [of last_tick now thr]
  by (simp add: handle_rotation_def handle_button_def handle_switch_press_def Let_def)

text \<open>After the counter has wrapped, every edge is rejected until the counter has passed
  the stored tick again: with the stored tick at \<open>2^30 - 5\<close>, every tick of the next
  cycle below \<open>2^30 - 3\<close>.\<close>

lemma rotation_lockout_after_wrap:
  assumes "now < 1073741821"
  shows "handle_rotation now clk dt near_wrap = (near_wrap, [])"
  using assms by (simp add: handle_rotation_def near_wrap_def ENCODER_DEBOUNCE_TIME_def)

text \<open>
  C3. The code does not do what the claim says once the tick counter has wrapped between
  two events. With the last accepted edge at tick \<open>2^30 - 5\<close> and the counter wrapped,
  an edge at tick 10 comes 15 ms after it and one at tick 1000000 more than sixteen
  minutes after it; the unsigned modular difference is above the threshold for both, so
  the filter of the claim accepts them. The rotation handler subtracts the two Python
  integers, gets a negative difference, rejects both edges and leaves its state as it
  was. The button handler and the switch handler do the same, at tick 100.
\<close>

theorem debounce_rejects_after_wrap:
  "spec_filter (word_of_int 10) (word_of_int (last_interrupt_time near_wrap))
       (word_of_int ENCODER_DEBOUNCE_TIME)
   \<and> handle_rotation 10 0 1 near_wrap = (near_wrap, [])
   \<and> spec_filter (word_of_int 1000000) (word_of_int (last_interrupt_time near_wrap))
       (word_of_int ENCODER_DEBOUNCE_TIME)
   \<and> handle_rotation 1000000 0 1 near_wrap = (near_wrap, [])
   \<and> spec_filter (word_of_int 100) (word_of_int (button_press_time near_wrap)) (word_of_int 50)
   \<and> handle_button 100 0 near_wrap = (near_wrap, [])
   \<and> spec_filter (word_of_int 100) (word_of_int (last_press_time near_wrap_switches Switch_1))
       (word_of_int DEBOUNCE_TIME)
   \<and> handle_switch_press 100 Switch_1 near_wrap_switches = (near_wrap_switches, [])"
  by (simp add: spec_filter_def handle_rotation_def handle_button_def handle_switch_press_def
      near_wrap_def near_wrap_switches_def ENCODER_DEBOUNCE_TIME_def DEBOUNCE_TIME_def)

text \<open>
  C4. For every rotation interrupt that passes the debounce filter, with the levels of CLK
  and DT it reads: if CLK differs from its previously sampled value and is 0 while DT is
  1, the handler calls the registered rotation callback exactly once, with \<open>+1\<close>; if CLK
  changed to 0 while DT is 0, exactly once with \<open>-1\<close>; if CLK equals its previous
  sample, it calls nothing. Emitting a tick is calling \<open>callback_rotate\<close>: an encoder
  built without one has nobody to emit to and calls nothing. In every case the handler
  stores the tick and the two levels.
\<close>

theorem rotation_decoder_ticks:
  assumes "ENCODER_DEBOUNCE_TIME \<le> now - last_interrupt_time e"
  shows "(callback_rotate e = Some cb \<and> clk \<noteq> last_clk e \<and> clk = 0 \<and> dt = 1 \<longrightarrow>
            snd (handle_rotation now clk dt e) = [(cb, 1)])
       \<and> (callback_rotate e = Some cb \<and> clk \<noteq> last_clk e \<and> clk = 0 \<and> dt = 0 \<longrightarrow>
            snd (handle_rotation now clk dt e) = [(cb, - 1)])
       \<and> (clk = last_clk e \<longrightarrow> snd (handle_rotation now clk dt e) = [])
       \<and> (callback_rotate e = None \<longrightarrow> snd (handle_rotation now clk dt e) = [])
       \<and> fst (handle_rotation now clk dt e) =
            e\<lparr>last_interrupt_time := now, last_clk := clk, last_dt := dt\<rparr>"
  using assms by (simp add: handle_rotation_def Let_def)

theorem rotation_decoder_ticks_witness:
  "ENCODER_DEBOUNCE_TIME \<le> 5 - last_interrupt_time (EC11Encoder_init (Some ()) (Some ()) 1 1 1)
   \<and> snd (handle_rotation 5 0 1 (EC11Encoder_init (Some ()) (Some ()) 1 1 1)) = [((), 1)]
   \<and> snd (handle_rotation 5 0 0 (EC11Encoder_init (Some ()) (Some ()) 1 1 1)) = [((), - 1)]
   \<and> snd (handle_rotation 5 1 1 (EC11Encoder_init (Some ()) (Some ()) 1 1 1)) = []
   \<and> snd (handle_rotation 5 0 1 (EC11Encoder_init (None :: unit option) (Some ()) 1 1 1)) = []"
proof -
  have a: "ENCODER_DEBOUNCE_TIME \<le> 5 - last_interrupt_time (EC11Encoder_init (Some ()) (Some ()) 1 1 1)"
    "ENCODER_DEBOUNCE_TIME \<le> 5 - last_interrupt_time (EC11Encoder_init (None :: unit option) (Some ()) 1 1 1)"
    by (simp_all add: EC11Encoder_init_def ENCODER_DEBOUNCE_TIME_def)
  from rotation_decoder_ticks [OF a(1), of "()" 0 1]
    rotation_decoder_ticks [OF a(1), of "()" 0 0]
    rotation_decoder_ticks [OF a(1), of "()" 1 1]
    rotation_decoder_ticks [OF a(2), of "()" 0 1]
  show ?thesis
    using a by (simp add: EC11Encoder_init_def)
qed

text \<open>
  C8, as the claim states it, fails on the thresholds: an edge 10 ms after the last
  accepted one passes the rotation filter (threshold \<open>ENCODER_DEBOUNCE_TIME\<close>, 2 ms) and
  is rejected by the button filter (threshold 50 ms), so the button's threshold is not the
  shorter one.
\<close>

theorem button_threshold_counterexample:
  "last_interrupt_time (fst (handle_rotation 10 0 1 (EC11Encoder_init (Some ()) (Some ()) 1 1 1)))
     = 10
   \<and> handle_button 10 0 (EC11Encoder_init (Some ()) (Some ()) 1 1 1)
     = (EC11Encoder_init (Some ()) (Some ()) 1 1 1, [])
   \<and> \<not> (50 < ENCODER_DEBOUNCE_TIME)"
  by (simp add: handle_rotation_def handle_button_def EC11Encoder_init_def
      ENCODER_DEBOUNCE_TIME_def)

text \<open>
  C8, amended. The debounce threshold of the encoder's button (50 ms) is distinct from and
  strictly longer than the threshold of rotation events (\<open>ENCODER_DEBOUNCE_TIME\<close>, 2 ms):
  whatever elapsed time passes the button filter passes the rotation filter. An accepted
  button edge changes nothing in the encoder but the stored press time (no state is
  toggled), and when the button reads low it is reported by exactly one call of the
  registered button callback, with no argument.
\<close>

theorem button_debounce_and_event:
  "ENCODER_DEBOUNCE_TIME < 50
   \<and> (now - button_press_time e < 50 \<longrightarrow> handle_button now sw e = (e, []))
   \<and> (50 \<le> now - button_press_time e \<longrightarrow>
        fst (handle_button now sw e) = e\<lparr>button_press_time := now\<rparr>)
   \<and> (50 \<le> now - button_press_time e \<and> sw = 0 \<and> callback_button e = Some cb \<longrightarrow>
        snd (handle_button now sw e) = [cb])
   \<and> (now - last_interrupt_time e < ENCODER_DEBOUNCE_TIME \<longrightarrow>
        handle_rotation now clk dt e = (e, []))
   \<and> (50 \<le> now - last_interrupt_time e \<longrightarrow>
        last_interrupt_time (fst (handle_rotation now clk dt e)) = now)"
  by (simp add: handle_rotation_def handle_button_def Let_def ENCODER_DEBOUNCE_TIME_def)

theorem button_debounce_and_event_witness:
  "handle_button 60 0 (EC11Encoder_init (Some ()) (Some ()) 1 1 1)
     = ((EC11Encoder_init (Some ()) (Some ()) 1 1 1)\<lparr>button_press_time := 60\<rparr>, [()])
   \<and> handle_button 70 0 ((EC11Encoder_init (Some ()) (Some ()) 1 1 1)\<lparr>button_press_time := 60\<rparr>)
     = ((EC11Encoder_init (Some ()) (Some ()) 1 1 1)\<lparr>button_press_time := 60\<rparr>, [])
   \<and> handle_rotation 1 0 1 (EC11Encoder_init (Some ()) (Some ()) 1 1 1)
     = (EC11Encoder_init (Some ()) (Some ()) 1 1 1, [])
   \<and> last_interrupt_time (fst (handle_rotation 60 0 1 (EC11Encoder_init (Some ()) (Some ()) 1 1 1)))
     = 60"
proof -
  let ?e = "EC11Encoder_init (Some ()) (Some ()) (1::int) 1 1 :: (unit, unit) ec11"
  have a: "(50::int) \<le> 60 - button_press_time ?e" "callback_button ?e = Some ()"
    "(70::int) - button_press_time (?e\<lparr>button_press_time := 60\<rparr>) < 50"
    "(1::int) - last_interrupt_time ?e < ENCODER_DEBOUNCE_TIME"
    "(50::int) \<le> 60 - last_interrupt_time ?e"
    by (simp_all add: EC11Encoder_init_def ENCODER_DEBOUNCE_TIME_def)
  from button_debounce_and_event [of 60 ?e 0 "()" 0 1]
    button_debounce_and_event [of 70 "?e\<lparr>button_press_time := 60\<rparr>" 0 "()" 0 1]
    button_debounce_and_event [of 1 ?e 0 "()" 0 1]
  show ?thesis
    using a by (simp add: prod_eq_iff)
qed

section \<open>Properties of the media control dispatcher\<close>

lemma report_bytes:
  "py_bytes [VOLUME_UP AND 0xFF, drop_bit 8 VOLUME_UP AND 0xFF, 0] = Inr [0xE9, 0, 0]"
  "py_bytes [VOLUME_DOWN AND 0xFF, drop_bit 8 VOLUME_DOWN AND 0xFF, 0] = Inr [0xEA, 0, 0]"
  "py_bytes [VOLUME_MUTE AND 0xFF, drop_bit 8 VOLUME_MUTE AND 0xFF, 0] = Inr [0xE2, 0, 0]"
  "py_bytes [PLAY_PAUSE AND 0xFF, drop_bit 8 PLAY_PAUSE AND 0xFF, 0] = Inr [0xCD, 0, 0]"
  "py_bytes [NEXT_TRACK AND 0xFF, drop_bit 8 NEXT_TRACK AND 0xFF, 0] = Inr [0xB5, 0, 0]"
  "py_bytes [PREV_TRACK AND 0xFF, drop_bit 8 PREV_TRACK AND 0xFF, 0] = Inr [0xB6, 0, 0]"
  by (simp_all add: py_bytes_def VOLUME_UP_def VOLUME_DOWN_def VOLUME_MUTE_def PLAY_PAUSE_def
      NEXT_TRACK_def PREV_TRACK_def drop_bit_eq_div)

lemma send_media_command_never_raises: "fst (send_media_command code mc tr) = None"
  by (simp add: send_media_command_def split: option.splits sum.splits prod.splits
      py_error.splits)

lemma MediaControl_init_present:
  assumes "devices \<noteq> []"
  shows "enabled (MediaControl_init True devices)"
    and "keyboard (MediaControl_init True devices) \<noteq> None"
  using assms by (auto simp: MediaControl_init_def Let_def)

text \<open>
  C6. With the dispatcher enabled and a keyboard device whose primary primitive \<open>send\<close>
  works, \<open>volume_up\<close> makes exactly two transport writes, the press report
  \<open>[0xE9, 0x00, 0x00]\<close> then the release report \<open>[0x00, 0x00, 0x00]\<close>, with the 50 ms
  sleep between them, and returns \<open>True\<close>; where \<open>send\<close> is absent and \<open>write\<close>
  works, the same two reports go through \<open>write\<close>. With the dispatcher not enabled it
  writes nothing and returns \<open>False\<close>. The constructor leaves the dispatcher disabled
  when the transport is absent (no \<open>usb_hid\<close> module, or no device), and enabled with a
  keyboard device when there is one.
\<close>

theorem volume_up_reports:
  "(enabled mc \<and> keyboard mc = Some kb \<and> send_prim kb = Works \<longrightarrow>
      volume_up mc tr =
        (True, tr @ [HidCall Send [0xE9, 0x00, 0x00] True, Sleep_ms 50,
                     HidCall Send [0x00, 0x00, 0x00] True]))
   \<and> (enabled mc \<and> keyboard mc = Some kb \<and> send_prim kb = Absent \<and> write_prim kb = Works \<longrightarrow>
      volume_up mc tr =
        (True, tr @ [HidCall Write [0xE9, 0x00, 0x00] True, Sleep_ms 50,
                     HidCall Write [0x00, 0x00, 0x00] True]))
   \<and> (\<not> enabled mc \<longrightarrow> volume_up mc tr = (False, tr))
   \<and> \<not> enabled (MediaControl_init False devices)
   \<and> \<not> enabled (MediaControl_init True [])
   \<and> (devices \<noteq> [] \<longrightarrow>
        enabled (MediaControl_init True devices)
        \<and> keyboard (MediaControl_init True devices) \<noteq> None)"
proof -
  have 1: "volume_up mc tr =
        (True, tr @ [HidCall Send [0xE9, 0x00, 0x00] True, Sleep_ms 50,
                     HidCall Send [0x00, 0x00, 0x00] True])"
    if "enabled mc" "keyboard mc = Some kb" "send_prim kb = Works"
    using that
    by (simp add: volume_up_def send_media_command_def report_bytes press_release_def
        hid_call_def)
  have 2: "volume_up mc tr =
        (True, tr @ [HidCall Write [0xE9, 0x00, 0x00] True, Sleep_ms 50,
                     HidCall Write [0x00, 0x00, 0x00] True])"
    if "enabled mc" "keyboard mc = Some kb" "send_prim kb = Absent" "write_prim kb = Works"
    using that
    by (simp add: volume_up_def send_media_command_def report_bytes press_release_def
        hid_call_def)
  have 3: "volume_up mc tr = (False, tr)" if "\<not> enabled mc"
    using that by (simp add: volume_up_def)
  have 4: "\<not> enabled (MediaControl_init False devices)" "\<not> enabled (MediaControl_init True [])"
    by (simp_all add: MediaControl_init_def)
  show ?thesis
    using 1 2 3 4 MediaControl_init_present [of devices] by blast
qed

theorem volume_up_reports_witness:
  "enabled (MediaControl_init True [consumer_device])
   \<and> keyboard (MediaControl_init True [consumer_device]) = Some consumer_device
   \<and> send_prim consumer_device = Works
   \<and> volume_up (MediaControl_init True [consumer_device]) [] =
        (True, [HidCall Send [0xE9, 0x00, 0x00] True, Sleep_ms 50,
                HidCall Send [0x00, 0x00, 0x00] True])
   \<and> volume_up (MediaControl_init False [consumer_device]) [] = (False, [])"
proof -
  have a: "enabled (MediaControl_init True [consumer_device])"
    "keyboard (MediaControl_init True [consumer_device]) = Some consumer_device"
    "send_prim consumer_device = Works"
    "\<not> enabled (MediaControl_init False [consumer_device])"
    by (simp_all add: MediaControl_init_def consumer_device_def)
  from volume_up_reports [of "MediaControl_init True [consumer_device]" consumer_device "[]"
      "[consumer_device]"]
    volume_up_reports [of "MediaControl_init False [consumer_device]" consumer_device "[]"
      "[consumer_device]"]
  show ?thesis
    using a by simp
qed

text \<open>
  C7. The code does not do what the claim says. On an enabled dispatcher whose device has
  no \<open>send\<close> and whose \<open>write\<close> raises, each of the six operations tries the
  fallback \<open>write\<close> once, and returns \<open>True\<close>: \<open>_send_media_command\<close> catches every
  exception itself, so the \<open>except\<close> clause of the operation, which returns \<open>False\<close>,
  is never reached. Whatever the transport does, an operation returns \<open>True\<close> exactly
  when the dispatcher is enabled.
\<close>

theorem send_failure_returns_true:
  "MediaControl_init True [\<lparr>usage_page = 0x0C, send_prim = Absent, write_prim = Raises\<rparr>]
     = failing_transport
   \<and> volume_up failing_transport [] = (True, [HidCall Write [0xE9, 0, 0] False])
   \<and> volume_down failing_transport [] = (True, [HidCall Write [0xEA, 0, 0] False])
   \<and> volume_mute failing_transport [] = (True, [HidCall Write [0xE2, 0, 0] False])
   \<and> play_pause failing_transport [] = (True, [HidCall Write [0xCD, 0, 0] False])
   \<and> next_track failing_transport [] = (True, [HidCall Write [0xB5, 0, 0] False])
   \<and> prev_track failing_transport [] = (True, [HidCall Write [0xB6, 0, 0] False])
   \<and> fst (volume_up mc tr) = enabled mc
   \<and> fst (volume_down mc tr) = enabled mc
   \<and> fst (volume_mute mc tr) = enabled mc
   \<and> fst (play_pause mc tr) = enabled mc
   \<and> fst (next_track mc tr) = enabled mc
   \<and> fst (prev_track mc tr) = enabled mc"
proof -
  have n: "\<And>code. \<exists>tr'. send_media_command code mc tr = (None, tr')"
    using send_media_command_never_raises [of _ mc tr] by (metis prod.collapse)
  have g: "fst (volume_up mc tr) = enabled mc" "fst (volume_down mc tr) = enabled mc"
    "fst (volume_mute mc tr) = enabled mc" "fst (play_pause mc tr) = enabled mc"
    "fst (next_track mc tr) = enabled mc" "fst (prev_track mc tr) = enabled mc"
    using n [of VOLUME_UP] n [of VOLUME_DOWN] n [of VOLUME_MUTE] n [of PLAY_PAUSE]
      n [of NEXT_TRACK] n [of PREV_TRACK]
    by (auto simp: volume_up_def volume_down_def volume_mute_def play_pause_def next_track_def
        prev_track_def)
  have e: "MediaControl_init True [\<lparr>usage_page = 0x0C, send_prim = Absent, write_prim = Raises\<rparr>]
     = failing_transport"
    "volume_up failing_transport [] = (True, [HidCall Write [0xE9, 0, 0] False])"
    "volume_down failing_transport [] = (True, [HidCall Write [0xEA, 0, 0] False])"
    "volume_mute failing_transport [] = (True, [HidCall Write [0xE2, 0, 0] False])"
    "play_pause failing_transport [] = (True, [HidCall Write [0xCD, 0, 0] False])"
    "next_track failing_transport [] = (True, [HidCall Write [0xB5, 0, 0] False])"
    "prev_track failing_transport [] = (True, [HidCall Write [0xB6, 0, 0] False])"
    by (simp_all add: MediaControl_init_def failing_transport_def volume_up_def volume_down_def
        volume_mute_def play_pause_def next_track_def prev_track_def send_media_command_def
        report_bytes press_release_def hid_call_def)
  show ?thesis
    using g e by simp
qed

section \<open>Properties of the switch flags\<close>













text \<open>
  What the order of the steps does not give: a press accepted between \<open>show_status\<close>
  and the end of \<open>reset_states\<close> is reset without having been in a list the renderer
  was given. Switch 2, pressed at tick 650 inside the update, has its press time stored
  and its key-press screen drawn, and its flag is false again when the update returns.
\<close>

lemma press_inside_update_lost:
  "poll_pc (run update_until_rendered booted) = At_reset SWITCH_NAMES
   \<and> map_option screens (display (run update_until_rendered booted))
       = Some [Welcome, Key_press Switch_1, Status 0 [Switch_1]]
   \<and> states (switch_handler
        (run (update_until_rendered @ [Switch_irq Switch_2 650]) booted)) Switch_2
   \<and> \<not> states (switch_handler (run press_inside_update booted)) Switch_2
   \<and> last_press_time (switch_handler (run press_inside_update booted)) Switch_2 = 650
   \<and> map_option screens (display (run press_inside_update booted))
       = Some [Welcome, Key_press Switch_1, Status 0 [Switch_1], Key_press Switch_2]
   \<and> poll_pc (run press_inside_update booted) = Idle"
proof -
  have 1: "poll_pc (run update_until_rendered booted) = At_reset SWITCH_NAMES"
    by code_simp
  have 2: "map_option screens (display (run update_until_rendered booted))
       = Some [Welcome, Key_press Switch_1, Status 0 [Switch_1]]"
    by code_simp
  have 3: "states (switch_handler
        (run (update_until_rendered @ [Switch_irq Switch_2 650]) booted)) Switch_2"
    by code_simp
  have 4: "\<not> states (switch_handler (run press_inside_update booted)) Switch_2"
    by code_simp
  have 5: "last_press_time (switch_handler (run press_inside_update booted)) Switch_2 = 650"
    by code_simp
  have 6: "map_option screens (display (run press_inside_update booted))
       = Some [Welcome, Key_press Switch_1, Status 0 [Switch_1], Key_press Switch_2]"
    by code_simp
  have 7: "poll_pc (run press_inside_update booted) = Idle"
    by code_simp
  from 1 2 3 4 5 6 7 show ?thesis
    by (intro conjI)
qed



text \<open>Seventeen steps of the main loop with no interrupt between them are
  \<open>update_display\<close> as one call.\<close>

lemma update_display_uninterrupted:
  "(poll_step t ^^ 17) (sys\<lparr>poll_pc := Idle\<rparr>) = update_display t (sys\<lparr>poll_pc := Idle\<rparr>)"
proof (cases "t - last_display_update sys > 500")
  case False
  then have "poll_step t (sys\<lparr>poll_pc := Idle\<rparr>) = sys\<lparr>poll_pc := Idle\<rparr>"
    by (simp add: poll_step_def)
  then have "(poll_step t ^^ n) (sys\<lparr>poll_pc := Idle\<rparr>) = sys\<lparr>poll_pc := Idle\<rparr>" for n
    by (induction n) simp_all
  then show ?thesis
    using False by (simp add: update_display_def)
next
  case True
  have idle: "(poll_step t ^^ n) (sys\<lparr>last_display_update := t, poll_pc := Idle\<rparr>)
      = sys\<lparr>last_display_update := t, poll_pc := Idle\<rparr>" for n
    by (induction n) (simp_all add: poll_step_def)
  show ?thesis
  proof (cases "display sys")
    case None
    have "(poll_step t ^^ 17) (sys\<lparr>poll_pc := Idle\<rparr>)
        = (poll_step t ^^ 15) (poll_step t (poll_step t (sys\<lparr>poll_pc := Idle\<rparr>)))"
      by (simp add: eval_nat_numeral funpow_swap1)
    also have "poll_step t (poll_step t (sys\<lparr>poll_pc := Idle\<rparr>))
        = sys\<lparr>last_display_update := t, poll_pc := Idle\<rparr>"
      using True None by (simp add: poll_step_def)
    finally show ?thesis
      using True None by (simp add: idle update_display_def Let_def)
  next
    case (Some d)
    show ?thesis
    proof (cases "initialized d")
      case False
      have "(poll_step t ^^ 17) (sys\<lparr>poll_pc := Idle\<rparr>)
          = (poll_step t ^^ 15) (poll_step t (poll_step t (sys\<lparr>poll_pc := Idle\<rparr>)))"
        by (simp add: eval_nat_numeral funpow_swap1)
      also have "poll_step t (poll_step t (sys\<lparr>poll_pc := Idle\<rparr>))
          = sys\<lparr>last_display_update := t, poll_pc := Idle\<rparr>"
        using True Some False by (simp add: poll_step_def)
      finally show ?thesis
        using True Some False by (simp add: idle update_display_def Let_def)
    next
      case init: True
      show ?thesis
        using True Some init
        by (simp add: eval_nat_numeral poll_step_def SWITCH_NAMES_def update_display_def
            Let_def get_active_switches_def reset_states_def)
    qed
  qed
qed

end
